theory Spec2Isabelle
  imports Complex_Main "HOL-Library.Multiset"
begin

section \<open>Values of the configuration\<close>

text \<open>
  The class \<^verbatim>\<open>VeryComplicatedClass\<close> of \<^verbatim>\<open>_black.py\<close> dispatches on the runtime class
  of each configuration value. The classes it tells apart are \<^verbatim>\<open>str\<close>, \<^verbatim>\<open>int\<close>,
  \<^verbatim>\<open>list\<close>, \<^verbatim>\<open>dict\<close> and, inside lists, \<^verbatim>\<open>float\<close>; everything else falls into the
  catch-all arms.

  In Python \<^verbatim>\<open>bool\<close> is a subclass of \<^verbatim>\<open>int\<close>: \<^verbatim>\<open>case int()\<close> and
  \<^verbatim>\<open>isinstance(x, int)\<close> accept \<^verbatim>\<open>True\<close> and \<^verbatim>\<open>False\<close>, and arithmetic reads them
  as 1 and 0. An instance of \<^verbatim>\<open>int\<close> is therefore either a plain (unbounded) integer
  or a boolean.
\<close>

datatype pyint = IntV int | BoolV bool

fun ival :: "pyint \<Rightarrow> int" where
  "ival (IntV i) = i"
| "ival (BoolV b) = (if b then 1 else 0)"

text \<open>
  A \<^verbatim>\<open>str\<close> is a sequence of Unicode code points, here a list of natural numbers.
  \<open>str_of\<close> turns a literal of the source, which is ASCII, into that list.
\<close>

type_synonym pystr = "nat list"

definition str_of :: "string \<Rightarrow> pystr" where
  "str_of s = map of_char s"

text \<open>
  The payload of a float is the type parameter \<open>'f\<close>: the only float operation of the
  class is \<^verbatim>\<open>elem * 2\<close>, which the model takes as a parameter \<open>fmul2 :: 'f \<Rightarrow> 'f\<close>.
  Values of any other class (\<^verbatim>\<open>None\<close>, sets, tuples, ...) are opaque payloads of type
  \<open>'o\<close>. A \<^verbatim>\<open>dict\<close> is the list of its items in insertion order; a well-formed one
  has distinct keys. Keys are only compared and stored; they are of type
  \<^typ>\<open>string\<close>, after the annotation \<^verbatim>\<open>key: str\<close>.
\<close>

datatype ('f, 'o) pyval =
    PStr pystr
  | PInt pyint
  | PFloat 'f
  | PList "('f, 'o) pyval list"
  | PDict "(string \<times> ('f, 'o) pyval) list"
  | POther 'o

type_synonym ('f, 'o) pydict = "(string \<times> ('f, 'o) pyval) list"


section \<open>Python's string methods\<close>

text \<open>
  \<^verbatim>\<open>text.lower()\<close>, \<^verbatim>\<open>text.upper()\<close> and \<^verbatim>\<open>text.capitalize()\<close> apply the case
  mappings of the Unicode character database, which are not part of this repository:
  they can change the length of a string (the upper case of U+00DF is "SS") and depend
  on the context of a character (the final sigma). The three methods are therefore a
  parameter \<open>U\<close> of the model, and every theorem holds for every \<open>U\<close>.
\<close>

record str_methods =
  lower :: "pystr \<Rightarrow> pystr"
  upper :: "pystr \<Rightarrow> pystr"
  capitalize :: "pystr \<Rightarrow> pystr"

text \<open>
  What is known of the three methods is their action on ASCII strings: \<^verbatim>\<open>lower\<close> and
  \<^verbatim>\<open>upper\<close> map the 26 letters and leave everything else, and \<^verbatim>\<open>capitalize\<close> puts
  the first character in upper case and all others in lower case. \<open>ascii_agree U\<close>
  says that \<open>U\<close> acts so on ASCII strings, as Python's methods do; it is assumed only
  where a theorem computes the result for a concrete ASCII string. \<open>ascii_methods\<close> is
  the instance that leaves every character beyond ASCII alone.
\<close>

definition ascii_lower_char :: "nat \<Rightarrow> nat" where
  "ascii_lower_char c = (if 65 \<le> c \<and> c \<le> 90 then c + 32 else c)"

definition ascii_upper_char :: "nat \<Rightarrow> nat" where
  "ascii_upper_char c = (if 97 \<le> c \<and> c \<le> 122 then c - 32 else c)"

definition ascii_lower :: "pystr \<Rightarrow> pystr" where
  "ascii_lower s = map ascii_lower_char s"

definition ascii_upper :: "pystr \<Rightarrow> pystr" where
  "ascii_upper s = map ascii_upper_char s"

fun ascii_capitalize :: "pystr \<Rightarrow> pystr" where
  "ascii_capitalize [] = []"
| "ascii_capitalize (c # cs) = ascii_upper_char c # ascii_lower cs"

definition is_ascii :: "pystr \<Rightarrow> bool" where
  "is_ascii s = list_all (\<lambda>c. c < 128) s"

definition ascii_agree :: "str_methods \<Rightarrow> bool" where
  "ascii_agree U =
     (\<forall>s. is_ascii s \<longrightarrow>
        lower U s = ascii_lower s \<and> upper U s = ascii_upper s
        \<and> capitalize U s = ascii_capitalize s)"

definition ascii_methods :: str_methods where
  "ascii_methods =
     \<lparr>lower = ascii_lower, upper = ascii_upper, capitalize = ascii_capitalize\<rparr>"

text \<open>\<^verbatim>\<open>s.startswith(p)\<close>, and \<^verbatim>\<open>sub in s\<close> as a scan over the start positions of \<open>s\<close>.\<close>

fun startswith :: "pystr \<Rightarrow> pystr \<Rightarrow> bool" where
  "startswith s [] = True"
| "startswith [] (p # ps) = False"
| "startswith (c # cs) (p # ps) = (c = p \<and> startswith cs ps)"

fun str_in :: "pystr \<Rightarrow> pystr \<Rightarrow> bool" where
  "str_in sub [] = (sub = [])"
| "str_in sub (c # cs) = (startswith (c # cs) sub \<or> str_in sub cs)"


section \<open>The two helper methods\<close>

text \<open>
  \<^verbatim>\<open>_internal_helper(self, key: str, value: int) -> int\<close>. The last branch returns
  \<^verbatim>\<open>value\<close> itself, so a boolean stays a boolean there; every other branch does
  arithmetic and returns a plain integer.
\<close>

definition internal_helper :: "string \<Rightarrow> pyint \<Rightarrow> pyint" where
  "internal_helper key val =
     (if key = ''multiply'' then
        (if ival val > 10 then IntV (ival val * 2)
         else IntV (ival val * 3))
      else if key = ''add'' then
        (if ival val < 0 then
           (if \<bar>ival val\<bar> > 100 then IntV (ival val + 200)
            else IntV (ival val + 50))
         else IntV (ival val + 10))
      else val)"

text \<open>
  \<^verbatim>\<open>_another_internal_helper(self, text: str) -> str\<close>; \<^verbatim>\<open>text[::-1]\<close> reverses the
  code points.
\<close>

definition another_internal_helper :: "str_methods \<Rightarrow> pystr \<Rightarrow> pystr" where
  "another_internal_helper U text =
     (if str_in (str_of ''error'') (lower U text) then upper U text
      else if str_in (str_of ''success'') (lower U text) then capitalize U text
      else rev text)"


section \<open>Dictionaries\<close>

text \<open>
  \<^verbatim>\<open>d[k] = v\<close>: an existing key keeps its position and gets the new value, a new key
  is appended.
\<close>

fun dict_setitem :: "('k \<times> 'v) list \<Rightarrow> 'k \<Rightarrow> 'v \<Rightarrow> ('k \<times> 'v) list" where
  "dict_setitem [] k v = [(k, v)]"
| "dict_setitem ((k', v') # d) k v =
     (if k' = k then (k', v) # d else (k', v') # dict_setitem d k v)"


section \<open>The class\<close>

text \<open>
  An object of \<^verbatim>\<open>VeryComplicatedClass\<close> has the two attributes that \<^verbatim>\<open>__init__\<close>
  sets. They are two different \<^verbatim>\<open>dict\<close> objects (\<^verbatim>\<open>__init__\<close> allocates
  \<^verbatim>\<open>internal_state\<close> itself), hence two fields that are updated independently.
\<close>

record ('f, 'o) VeryComplicatedClass =
  config :: "('f, 'o) pydict"
  internal_state :: "('f, 'o) pydict"

text \<open>\<^verbatim>\<open>__init__(self, config: dict)\<close>.\<close>

definition class_init :: "('f, 'o) pydict \<Rightarrow> ('f, 'o) VeryComplicatedClass" where
  "class_init cfg = \<lparr>config = cfg, internal_state = []\<rparr>"

text \<open>
  The comprehension of the long-list branch,
  \<^verbatim>\<open>[elem * 2 for elem in list_val if isinstance(elem, (int, float))]\<close>.
\<close>

fun double_numeric :: "('f \<Rightarrow> 'f) \<Rightarrow> ('f, 'o) pyval list \<Rightarrow> ('f, 'o) pyval list" where
  "double_numeric fmul2 [] = []"
| "double_numeric fmul2 (elem # list_val) =
     (case elem of
        PInt i \<Rightarrow> PInt (IntV (ival i * 2)) # double_numeric fmul2 list_val
      | PFloat x \<Rightarrow> PFloat (fmul2 x) # double_numeric fmul2 list_val
      | _ \<Rightarrow> double_numeric fmul2 list_val)"

text \<open>
  The loop of the short-list branch: \<^verbatim>\<open>for elem in list_val\<close>, appending to
  \<^verbatim>\<open>new_list\<close>.
\<close>

fun short_list_loop ::
  "str_methods \<Rightarrow> ('f, 'o) pyval list \<Rightarrow> ('f, 'o) pyval list \<Rightarrow> ('f, 'o) pyval list" where
  "short_list_loop U [] new_list = new_list"
| "short_list_loop U (elem # list_val) new_list =
     short_list_loop U list_val
       (case elem of
          PInt i \<Rightarrow> new_list @ [PInt (internal_helper ''multiply'' i)]
        | PStr s \<Rightarrow> new_list @ [PStr (another_internal_helper U s)]
        | _ \<Rightarrow> new_list @ [elem])"

text \<open>
  The loop of the dict branch: \<^verbatim>\<open>for d_key, d_value in dict_val.items()\<close>, writing
  into \<^verbatim>\<open>nested_result\<close>.
\<close>

fun nested_dict_loop ::
  "str_methods \<Rightarrow> ('f, 'o) pydict \<Rightarrow> ('f, 'o) pydict \<Rightarrow> ('f, 'o) pydict" where
  "nested_dict_loop U [] nested_result = nested_result"
| "nested_dict_loop U ((d_key, d_value) # dict_val) nested_result =
     nested_dict_loop U dict_val
       (case d_value of
          PInt i \<Rightarrow> dict_setitem nested_result d_key (PInt (internal_helper ''add'' i))
        | PStr s \<Rightarrow> dict_setitem nested_result d_key (PStr (another_internal_helper U s))
        | _ \<Rightarrow> dict_setitem nested_result d_key d_value)"

text \<open>
  The body of the outer loop: the \<^verbatim>\<open>match\<close> statement on one item, with the
  \<^verbatim>\<open>internal_state\<close> it writes to. The arms are in the order of the source.
\<close>

definition process_entry ::
  "str_methods \<Rightarrow> ('f \<Rightarrow> 'f) \<Rightarrow> string \<Rightarrow> ('f, 'o) pyval \<Rightarrow> ('f, 'o) pydict
     \<Rightarrow> ('f, 'o) pydict" where
  "process_entry U fmul2 key val state =
     (case val of
        PStr string_val \<Rightarrow>
          dict_setitem state key (PStr (another_internal_helper U string_val))
      | PInt int_val \<Rightarrow>
          dict_setitem state key (PInt (internal_helper key int_val))
      | PList list_val \<Rightarrow>
          (if length list_val > 5
           then dict_setitem state key (PList (double_numeric fmul2 list_val))
           else dict_setitem state key (PList (short_list_loop U list_val [])))
      | PDict dict_val \<Rightarrow>
          dict_setitem state key (PDict (nested_dict_loop U dict_val []))
      | _ \<Rightarrow> dict_setitem state key val)"

text \<open>The outer loop, \<^verbatim>\<open>for key, value in self.config.items()\<close>.\<close>

fun config_loop ::
  "str_methods \<Rightarrow> ('f \<Rightarrow> 'f) \<Rightarrow> ('f, 'o) pydict \<Rightarrow> ('f, 'o) pydict \<Rightarrow> ('f, 'o) pydict" where
  "config_loop U fmul2 [] state = state"
| "config_loop U fmul2 ((key, val) # items) state =
     config_loop U fmul2 items (process_entry U fmul2 key val state)"

text \<open>
  \<^verbatim>\<open>process_config(self)\<close> reads \<^verbatim>\<open>self.config\<close> and writes into the
  \<^verbatim>\<open>self.internal_state\<close> that the object has at that moment.
\<close>

definition process_config ::
  "str_methods \<Rightarrow> ('f \<Rightarrow> 'f) \<Rightarrow> ('f, 'o) VeryComplicatedClass
     \<Rightarrow> ('f, 'o) VeryComplicatedClass" where
  "process_config U fmul2 self =
     self\<lparr>internal_state := config_loop U fmul2 (config self) (internal_state self)\<rparr>"

text \<open>
  The configuration that \<^verbatim>\<open>main\<close> builds. Its float literals are written as the
  reals they denote and its set as a set of integers.
\<close>

definition complex_config :: "(real, int set) pydict" where
  "complex_config =
     [(''multiply'', PInt (IntV 12)),
      (''add'', PInt (IntV (- 20))),
      (''textData'', PStr (str_of ''This might be an error message'')),
      (''listData'',
         PList [PInt (IntV 5), PStr (str_of ''hello''), PFloat 3.14, PInt (IntV (- 2)),
                PInt (IntV 10)]),
      (''anotherList'',
         PList [PInt (IntV 1), PInt (IntV 2), PInt (IntV 3), PInt (IntV 4), PInt (IntV 5),
                PInt (IntV 6), PInt (IntV 7)]),
      (''nestedDict'',
         PDict [(''innerInt'', PInt (IntV 5)), (''innerText'', PStr (str_of ''SUCCESS CASE'')),
                (''ignored'', PFloat 3.1415)]),
      (''unhandledType'', POther {1, 2, 3})]"


section \<open>The object and its two dictionaries as references\<close>

text \<open>
  \<^verbatim>\<open>self.config = config\<close> stores a reference to the caller's \<^verbatim>\<open>dict\<close>, and
  \<^verbatim>\<open>self.internal_state = {}\<close> a reference to a new one. To speak about which
  \<^verbatim>\<open>dict\<close> object a pass writes to, the heap is the list of the \<^verbatim>\<open>dict\<close> objects
  allocated so far, an address is an index into it, and the object holds two
  addresses. Allocation appends. Python has no dangling references, so the addresses
  of an object are always below the length of the heap.

  The loop reads each item of \<^verbatim>\<open>self.config\<close> once and writes only under the key it
  has just read, so it is \<open>config_loop\<close> on the items of the configuration, also when
  both attributes refer to the same \<^verbatim>\<open>dict\<close>.
\<close>

type_synonym ('f, 'o) heap = "('f, 'o) pydict list"

record VeryComplicatedClass_refs =
  config_ref :: nat
  internal_state_ref :: nat

definition heap_init ::
  "('f, 'o) heap \<Rightarrow> nat \<Rightarrow> ('f, 'o) heap \<times> VeryComplicatedClass_refs" where
  "heap_init h config_addr =
     (h @ [[]], \<lparr>config_ref = config_addr, internal_state_ref = length h\<rparr>)"

definition heap_process_config ::
  "str_methods \<Rightarrow> ('f \<Rightarrow> 'f) \<Rightarrow> VeryComplicatedClass_refs \<Rightarrow> ('f, 'o) heap
     \<Rightarrow> ('f, 'o) heap" where
  "heap_process_config U fmul2 self h =
     h[internal_state_ref self :=
         config_loop U fmul2 (h ! config_ref self) (h ! internal_state_ref self)]"

text \<open>The object by value: the two dictionaries that its addresses refer to.\<close>

definition object_at ::
  "('f, 'o) heap \<Rightarrow> VeryComplicatedClass_refs \<Rightarrow> ('f, 'o) VeryComplicatedClass" where
  "object_at h self =
     \<lparr>config = h ! config_ref self, internal_state = h ! internal_state_ref self\<rparr>"


section \<open>The methods with Python's exceptions\<close>

text \<open>
  The annotations \<^verbatim>\<open>value: int\<close> and \<^verbatim>\<open>text: str\<close> are not enforced: the helper
  methods and \<^verbatim>\<open>elem * 2\<close> receive whatever object the caller passes. On an operand
  of the class they are written for they behave as modelled above. On any other operand
  the outcome is Python's: a value (\<^verbatim>\<open>"ab" * 2\<close> is \<^verbatim>\<open>"abab"\<close>) or an exception
  (\<^verbatim>\<open>"ab" > 10\<close> raises \<^verbatim>\<open>TypeError\<close>, \<^verbatim>\<open>(5).lower()\<close> raises \<^verbatim>\<open>AttributeError\<close>).
  That outcome is the parameter \<open>D\<close>, one function per operation, so that a statement
  proved for every \<open>D\<close> holds whatever Python does there.
\<close>

datatype error = TypeError | AttributeError

record ('f, 'o) other_operands =
  helper_else :: "string \<Rightarrow> ('f, 'o) pyval \<Rightarrow> error + ('f, 'o) pyval"
  text_else :: "('f, 'o) pyval \<Rightarrow> error + ('f, 'o) pyval"
  mul2_else :: "('f, 'o) pyval \<Rightarrow> error + ('f, 'o) pyval"

text \<open>The instance in which every operation raises on an operand of another class.\<close>

definition raising :: "('f, 'o) other_operands" where
  "raising =
     \<lparr>helper_else = (\<lambda>key val. Inl TypeError),
      text_else = (\<lambda>text. Inl AttributeError),
      mul2_else = (\<lambda>elem. Inl TypeError)\<rparr>"

text \<open>\<^verbatim>\<open>isinstance(x, int)\<close>, \<^verbatim>\<open>isinstance(x, float)\<close> and \<^verbatim>\<open>isinstance(x, str)\<close>.\<close>

fun isinstance_int :: "('f, 'o) pyval \<Rightarrow> bool" where
  "isinstance_int (PInt i) = True"
| "isinstance_int v = False"

fun isinstance_float :: "('f, 'o) pyval \<Rightarrow> bool" where
  "isinstance_float (PFloat x) = True"
| "isinstance_float v = False"

fun isinstance_str :: "('f, 'o) pyval \<Rightarrow> bool" where
  "isinstance_str (PStr s) = True"
| "isinstance_str v = False"

text \<open>The two helper methods and \<^verbatim>\<open>elem * 2\<close> on an arbitrary object.\<close>

definition internal_helper_call ::
  "('f, 'o) other_operands \<Rightarrow> string \<Rightarrow> ('f, 'o) pyval \<Rightarrow> error + ('f, 'o) pyval" where
  "internal_helper_call D key val =
     (case val of
        PInt i \<Rightarrow> Inr (PInt (internal_helper key i))
      | _ \<Rightarrow> helper_else D key val)"

definition another_internal_helper_call ::
  "str_methods \<Rightarrow> ('f, 'o) other_operands \<Rightarrow> ('f, 'o) pyval \<Rightarrow> error + ('f, 'o) pyval" where
  "another_internal_helper_call U D text =
     (case text of
        PStr s \<Rightarrow> Inr (PStr (another_internal_helper U s))
      | _ \<Rightarrow> text_else D text)"

definition mul2 ::
  "('f \<Rightarrow> 'f) \<Rightarrow> ('f, 'o) other_operands \<Rightarrow> ('f, 'o) pyval \<Rightarrow> error + ('f, 'o) pyval" where
  "mul2 fmul2 D elem =
     (case elem of
        PInt i \<Rightarrow> Inr (PInt (IntV (ival i * 2)))
      | PFloat x \<Rightarrow> Inr (PFloat (fmul2 x))
      | _ \<Rightarrow> mul2_else D elem)"

text \<open>An exception ends the method; a value goes on to the rest of it.\<close>

definition and_then :: "error + 'a \<Rightarrow> ('a \<Rightarrow> error + 'b) \<Rightarrow> error + 'b" where
  "and_then r rest = (case r of Inl e \<Rightarrow> Inl e | Inr v \<Rightarrow> rest v)"

text \<open>
  The comprehension, the two inner loops, the \<^verbatim>\<open>match\<close> statement and the outer loop
  once more, now with the tests of the source as tests and with every call as a call
  that may raise.
\<close>

fun double_numeric_checked ::
  "('f \<Rightarrow> 'f) \<Rightarrow> ('f, 'o) other_operands \<Rightarrow> ('f, 'o) pyval list
     \<Rightarrow> error + ('f, 'o) pyval list" where
  "double_numeric_checked fmul2 D [] = Inr []"
| "double_numeric_checked fmul2 D (elem # list_val) =
     (if isinstance_int elem \<or> isinstance_float elem
      then and_then (mul2 fmul2 D elem) (\<lambda>doubled.
           and_then (double_numeric_checked fmul2 D list_val) (\<lambda>rest.
             Inr (doubled # rest)))
      else double_numeric_checked fmul2 D list_val)"

fun short_list_loop_checked ::
  "str_methods \<Rightarrow> ('f, 'o) other_operands \<Rightarrow> ('f, 'o) pyval list \<Rightarrow> ('f, 'o) pyval list
     \<Rightarrow> error + ('f, 'o) pyval list" where
  "short_list_loop_checked U D [] new_list = Inr new_list"
| "short_list_loop_checked U D (elem # list_val) new_list =
     (if isinstance_int elem
      then and_then (internal_helper_call D ''multiply'' elem) (\<lambda>r.
             short_list_loop_checked U D list_val (new_list @ [r]))
      else if isinstance_str elem
      then and_then (another_internal_helper_call U D elem) (\<lambda>r.
             short_list_loop_checked U D list_val (new_list @ [r]))
      else short_list_loop_checked U D list_val (new_list @ [elem]))"

fun nested_dict_loop_checked ::
  "str_methods \<Rightarrow> ('f, 'o) other_operands \<Rightarrow> ('f, 'o) pydict \<Rightarrow> ('f, 'o) pydict
     \<Rightarrow> error + ('f, 'o) pydict" where
  "nested_dict_loop_checked U D [] nested_result = Inr nested_result"
| "nested_dict_loop_checked U D ((d_key, d_value) # dict_val) nested_result =
     (if isinstance_int d_value
      then and_then (internal_helper_call D ''add'' d_value) (\<lambda>r.
             nested_dict_loop_checked U D dict_val (dict_setitem nested_result d_key r))
      else if isinstance_str d_value
      then and_then (another_internal_helper_call U D d_value) (\<lambda>r.
             nested_dict_loop_checked U D dict_val (dict_setitem nested_result d_key r))
      else nested_dict_loop_checked U D dict_val (dict_setitem nested_result d_key d_value))"

definition process_entry_checked ::
  "str_methods \<Rightarrow> ('f \<Rightarrow> 'f) \<Rightarrow> ('f, 'o) other_operands \<Rightarrow> string \<Rightarrow> ('f, 'o) pyval
     \<Rightarrow> ('f, 'o) pydict \<Rightarrow> error + ('f, 'o) pydict" where
  "process_entry_checked U fmul2 D key val state =
     (case val of
        PStr string_val \<Rightarrow>
          and_then (another_internal_helper_call U D val) (\<lambda>transformed.
            Inr (dict_setitem state key transformed))
      | PInt int_val \<Rightarrow>
          and_then (internal_helper_call D key val) (\<lambda>result.
            Inr (dict_setitem state key result))
      | PList list_val \<Rightarrow>
          (if length list_val > 5
           then and_then (double_numeric_checked fmul2 D list_val) (\<lambda>doubled.
                  Inr (dict_setitem state key (PList doubled)))
           else and_then (short_list_loop_checked U D list_val []) (\<lambda>new_list.
                  Inr (dict_setitem state key (PList new_list))))
      | PDict dict_val \<Rightarrow>
          and_then (nested_dict_loop_checked U D dict_val []) (\<lambda>nested_result.
            Inr (dict_setitem state key (PDict nested_result)))
      | _ \<Rightarrow> Inr (dict_setitem state key val))"

fun config_loop_checked ::
  "str_methods \<Rightarrow> ('f \<Rightarrow> 'f) \<Rightarrow> ('f, 'o) other_operands \<Rightarrow> ('f, 'o) pydict
     \<Rightarrow> ('f, 'o) pydict \<Rightarrow> error + ('f, 'o) pydict" where
  "config_loop_checked U fmul2 D [] state = Inr state"
| "config_loop_checked U fmul2 D ((key, val) # items) state =
     and_then (process_entry_checked U fmul2 D key val state)
       (config_loop_checked U fmul2 D items)"

definition process_config_checked ::
  "str_methods \<Rightarrow> ('f \<Rightarrow> 'f) \<Rightarrow> ('f, 'o) other_operands \<Rightarrow> ('f, 'o) VeryComplicatedClass
     \<Rightarrow> error + ('f, 'o) VeryComplicatedClass" where
  "process_config_checked U fmul2 D self =
     and_then (config_loop_checked U fmul2 D (config self) (internal_state self))
       (\<lambda>state. Inr (self\<lparr>internal_state := state\<rparr>))"


section \<open>The rules as the specification words them\<close>

text \<open>A string contains a substring when it splits around it.\<close>

definition contains_substring :: "pystr \<Rightarrow> pystr \<Rightarrow> bool" where
  "contains_substring s sub = (\<exists>pre post. s = pre @ sub @ post)"

text \<open>
  The text rule: upper-cased when the lowercase form contains "error"; else, when it
  contains "success", the first character capitalized and the rest lower-cased; else
  reversed. "The first character capitalized and the rest lower-cased" is what the
  documentation of \<^verbatim>\<open>str.capitalize\<close> says of that method, and is read as it.
\<close>

definition transformText :: "str_methods \<Rightarrow> pystr \<Rightarrow> pystr" where
  "transformText U s =
     (if contains_substring (lower U s) (str_of ''error'') then upper U s
      else if contains_substring (lower U s) (str_of ''success'') then capitalize U s
      else rev s)"

text \<open>The numeric rule on integers, by operation selector.\<close>

definition transformNumber :: "string \<Rightarrow> int \<Rightarrow> int" where
  "transformNumber opSelector v =
     (if opSelector = ''multiply'' then (if v > 10 then v * 2 else v * 3)
      else if opSelector = ''add'' then
        (if v < 0 then (if \<bar>v\<bar> > 100 then v + 200 else v + 50) else v + 10)
      else v)"

text \<open>The elements that the long-sequence rule keeps, and their doubling.\<close>

fun is_numeric :: "('f, 'o) pyval \<Rightarrow> bool" where
  "is_numeric (PInt i) = True"
| "is_numeric (PFloat x) = True"
| "is_numeric v = False"

fun times2 :: "('f \<Rightarrow> 'f) \<Rightarrow> ('f, 'o) pyval \<Rightarrow> ('f, 'o) pyval" where
  "times2 fmul2 (PInt i) = PInt (IntV (ival i * 2))"
| "times2 fmul2 (PFloat x) = PFloat (fmul2 x)"
| "times2 fmul2 v = v"

text \<open>
  The element-wise rule with a fixed selector: integers through the numeric rule, text
  through the text rule, anything else unchanged.
\<close>

fun element_rule :: "str_methods \<Rightarrow> string \<Rightarrow> ('f, 'o) pyval \<Rightarrow> ('f, 'o) pyval" where
  "element_rule U opSelector (PInt i) = PInt (internal_helper opSelector i)"
| "element_rule U opSelector (PStr s) = PStr (another_internal_helper U s)"
| "element_rule U opSelector v = v"

definition sequence_rule ::
  "str_methods \<Rightarrow> ('f \<Rightarrow> 'f) \<Rightarrow> ('f, 'o) pyval list \<Rightarrow> ('f, 'o) pyval list" where
  "sequence_rule U fmul2 xs =
     (if length xs > 5 then map (times2 fmul2) (filter is_numeric xs)
      else map (element_rule U ''multiply'') xs)"

definition mapping_rule :: "str_methods \<Rightarrow> ('f, 'o) pydict \<Rightarrow> ('f, 'o) pydict" where
  "mapping_rule U d = map (\<lambda>(k, v). (k, element_rule U ''add'' v)) d"

text \<open>The shapes that have an arm of their own in the dispatch.\<close>

fun recognized :: "('f, 'o) pyval \<Rightarrow> bool" where
  "recognized (PStr s) = True"
| "recognized (PInt i) = True"
| "recognized (PList xs) = True"
| "recognized (PDict d) = True"
| "recognized v = False"

text \<open>
  What one pass stores under a key, arm by arm, in terms of the two helpers and the
  three inner loops.
\<close>

definition stored_value ::
  "str_methods \<Rightarrow> ('f \<Rightarrow> 'f) \<Rightarrow> string \<Rightarrow> ('f, 'o) pyval \<Rightarrow> ('f, 'o) pyval" where
  "stored_value U fmul2 key val =
     (case val of
        PStr s \<Rightarrow> PStr (another_internal_helper U s)
      | PInt i \<Rightarrow> PInt (internal_helper key i)
      | PList xs \<Rightarrow>
          PList (if length xs > 5 then double_numeric fmul2 xs
                 else short_list_loop U xs [])
      | PDict d \<Rightarrow> PDict (nested_dict_loop U d [])
      | _ \<Rightarrow> val)"

text \<open>The items that one pass over a configuration stores, in the order of the configuration.\<close>

definition stored_items ::
  "str_methods \<Rightarrow> ('f \<Rightarrow> 'f) \<Rightarrow> ('f, 'o) pydict \<Rightarrow> ('f, 'o) pydict" where
  "stored_items U fmul2 cfg = map (\<lambda>(k, v). (k, stored_value U fmul2 k v)) cfg"


section \<open>Substring search\<close>

lemma startswith_iff: "startswith s p \<longleftrightarrow> (\<exists>post. s = p @ post)"
  by (induction s p rule: startswith.induct) auto

lemma str_in_iff: "str_in sub s \<longleftrightarrow> contains_substring s sub"
proof (induction s)
  case Nil
  show ?case by (auto simp: contains_substring_def)
next
  case (Cons c cs)
  show ?case
  proof
    assume "str_in sub (c # cs)"
    then consider "startswith (c # cs) sub" | "str_in sub cs" by auto
    then show "contains_substring (c # cs) sub"
    proof cases
      case 1
      then obtain post where "c # cs = sub @ post" by (auto simp: startswith_iff)
      then have "c # cs = [] @ sub @ post" by simp
      then show ?thesis unfolding contains_substring_def by blast
    next
      case 2
      then obtain pre post where "cs = pre @ sub @ post"
        using Cons.IH by (auto simp: contains_substring_def)
      then have "c # cs = (c # pre) @ sub @ post" by simp
      then show ?thesis unfolding contains_substring_def by blast
    qed
  next
    assume "contains_substring (c # cs) sub"
    then obtain pre post where split: "c # cs = pre @ sub @ post"
      by (auto simp: contains_substring_def)
    show "str_in sub (c # cs)"
    proof (cases pre)
      case Nil
      with split have "startswith (c # cs) sub" by (auto simp: startswith_iff)
      then show ?thesis by simp
    next
      case (Cons p pre')
      with split have "cs = pre' @ sub @ post" by simp
      then have "contains_substring cs sub" unfolding contains_substring_def by blast
      then show ?thesis using Cons.IH by simp
    qed
  qed
qed


section \<open>The methods on ASCII strings\<close>

lemma ascii_agree_ascii_methods: "ascii_agree ascii_methods"
  by (simp add: ascii_agree_def ascii_methods_def)

lemma ascii_capitalize_take_drop:
  "ascii_capitalize s = ascii_upper (take 1 s) @ ascii_lower (drop 1 s)"
  by (cases s) (simp_all add: ascii_upper_def ascii_lower_def)

lemma is_ascii_take_drop: "is_ascii s \<Longrightarrow> is_ascii (take n s) \<and> is_ascii (drop n s)"
  by (auto simp: is_ascii_def list_all_iff dest: in_set_takeD in_set_dropD)

lemma capitalize_ascii:
  assumes "ascii_agree U" and "is_ascii s"
  shows "capitalize U s = upper U (take 1 s) @ lower U (drop 1 s)"
proof -
  from assms have "capitalize U s = ascii_capitalize s"
    by (simp add: ascii_agree_def)
  moreover from assms is_ascii_take_drop [OF assms(2), of 1]
  have "upper U (take 1 s) = ascii_upper (take 1 s)"
    and "lower U (drop 1 s) = ascii_lower (drop 1 s)"
    by (simp_all add: ascii_agree_def)
  ultimately show ?thesis
    by (simp add: ascii_capitalize_take_drop)
qed

lemma another_internal_helper_ascii:
  assumes "ascii_agree U" and "is_ascii s"
  shows "another_internal_helper U s = another_internal_helper ascii_methods s"
  using assms by (simp add: another_internal_helper_def ascii_agree_def ascii_methods_def)

lemma is_ascii_samples:
  "is_ascii (str_of ''hello'')"
  "is_ascii (str_of ''SUCCESS CASE'')"
  "is_ascii (str_of ''This might be an error message'')"
  "is_ascii (str_of ''this has an ERROR'')"
  "is_ascii (str_of ''great success'')"
  by code_simp+

lemma ascii_samples:
  "another_internal_helper ascii_methods (str_of ''hello'') = str_of ''olleh''"
  "another_internal_helper ascii_methods (str_of ''SUCCESS CASE'') = str_of ''Success case''"
  "another_internal_helper ascii_methods (str_of ''This might be an error message'')
     = str_of ''THIS MIGHT BE AN ERROR MESSAGE''"
  "another_internal_helper ascii_methods (str_of ''this has an ERROR'')
     = str_of ''THIS HAS AN ERROR''"
  "another_internal_helper ascii_methods (str_of ''great success'') = str_of ''Great success''"
  by code_simp+

lemma helper_samples:
  assumes "ascii_agree U"
  shows "another_internal_helper U (str_of ''hello'') = str_of ''olleh''"
    and "another_internal_helper U (str_of ''SUCCESS CASE'') = str_of ''Success case''"
    and "another_internal_helper U (str_of ''This might be an error message'')
           = str_of ''THIS MIGHT BE AN ERROR MESSAGE''"
    and "another_internal_helper U (str_of ''this has an ERROR'')
           = str_of ''THIS HAS AN ERROR''"
    and "another_internal_helper U (str_of ''great success'') = str_of ''Great success''"
  by (simp_all only: another_internal_helper_ascii [OF assms] is_ascii_samples ascii_samples)


text \<open>
  Beyond ASCII the result follows the case mappings: where \<^verbatim>\<open>upper\<close> maps U+00E9 to
  U+00C9, as Python's does, "error" followed by a space and U+00E9 becomes "ERROR"
  followed by a space and U+00C9.
\<close>

lemma another_internal_helper_beyond_ascii:
  assumes "lower U (str_of ''error '' @ [233]) = str_of ''error '' @ [233]"
    and "upper U (str_of ''error '' @ [233]) = str_of ''ERROR '' @ [201]"
  shows "another_internal_helper U (str_of ''error '' @ [233]) = str_of ''ERROR '' @ [201]"
proof -
  have "str_in (str_of ''error'') (str_of ''error '' @ [233])"
    by code_simp
  then show ?thesis
    by (simp add: another_internal_helper_def assms)
qed

section \<open>Dictionary writes and the loops\<close>

lemma map_of_dict_setitem: "map_of (dict_setitem d k v) = (map_of d)(k \<mapsto> v)"
  by (induction d) (auto simp: fun_eq_iff)

lemma keys_dict_setitem: "set (map fst (dict_setitem d k v)) = insert k (set (map fst d))"
proof (induction d)
  case Nil
  show ?case by simp
next
  case (Cons p d)
  obtain k' v' where p: "p = (k', v')" by (cases p)
  show ?case
  proof (cases "k' = k")
    case True
    then show ?thesis by (simp add: p)
  next
    case False
    then show ?thesis using Cons.IH by (simp add: p insert_commute)
  qed
qed

lemma distinct_dict_setitem:
  "distinct (map fst d) \<Longrightarrow> distinct (map fst (dict_setitem d k v))"
proof (induction d)
  case Nil
  show ?case by simp
next
  case (Cons p d)
  obtain k' v' where p: "p = (k', v')" by (cases p)
  from Cons.prems have new: "k' \<notin> set (map fst d)" and dist: "distinct (map fst d)"
    by (simp_all add: p)
  show ?case
  proof (cases "k' = k")
    case True
    then show ?thesis using Cons.prems by (simp add: p)
  next
    case False
    have "k' \<notin> set (map fst (dict_setitem d k v))"
      unfolding keys_dict_setitem using False new by simp
    then show ?thesis using False Cons.IH [OF dist] by (simp add: p)
  qed
qed

lemma dict_setitem_new: "k \<notin> set (map fst d) \<Longrightarrow> dict_setitem d k v = d @ [(k, v)]"
  by (induction d) auto

lemma double_numeric_eq: "double_numeric fmul2 xs = map (times2 fmul2) (filter is_numeric xs)"
proof (induction xs)
  case Nil
  show ?case by simp
next
  case (Cons x xs)
  then show ?case by (cases x) simp_all
qed

lemma short_list_loop_eq:
  "short_list_loop U xs new_list = new_list @ map (element_rule U ''multiply'') xs"
proof (induction xs arbitrary: new_list)
  case Nil
  show ?case by simp
next
  case (Cons x xs)
  then show ?case by (cases x) simp_all
qed

lemma nested_dict_step:
  "nested_dict_loop U ((k, v) # d) acc = nested_dict_loop U d (dict_setitem acc k (element_rule U ''add'' v))"
  by (cases v) simp_all

lemma nested_dict_loop_keys:
  "set (map fst (nested_dict_loop U d acc)) = set (map fst acc) \<union> set (map fst d)"
proof (induction d arbitrary: acc)
  case Nil
  show ?case by simp
next
  case (Cons kv d)
  obtain k v where kv: "kv = (k, v)" by (cases kv)
  show ?case
    unfolding kv nested_dict_step Cons.IH keys_dict_setitem by auto
qed

lemma nested_dict_loop_eq:
  "distinct (map fst (acc @ d)) \<Longrightarrow> nested_dict_loop U d acc = acc @ mapping_rule U d"
proof (induction d arbitrary: acc)
  case Nil
  show ?case by (simp add: mapping_rule_def)
next
  case (Cons kv d)
  obtain k v where kv: "kv = (k, v)" by (cases kv)
  from Cons.prems have new: "k \<notin> set (map fst acc)" and
    dist: "distinct (map fst ((acc @ [(k, element_rule U ''add'' v)]) @ d))"
    by (auto simp: kv)
  have "nested_dict_loop U (kv # d) acc
      = nested_dict_loop U d (acc @ [(k, element_rule U ''add'' v)])"
    unfolding kv nested_dict_step by (simp only: dict_setitem_new [OF new])
  also have "\<dots> = (acc @ [(k, element_rule U ''add'' v)]) @ mapping_rule U d"
    by (rule Cons.IH [OF dist])
  finally show ?case by (simp add: kv mapping_rule_def)
qed

lemma process_entry_eq:
  "process_entry U fmul2 key val state = dict_setitem state key (stored_value U fmul2 key val)"
  by (cases val) (simp_all add: process_entry_def stored_value_def)

lemma config_loop_keys:
  "set (map fst (config_loop U fmul2 cfg state)) = set (map fst state) \<union> set (map fst cfg)"
proof (induction cfg arbitrary: state)
  case Nil
  show ?case by simp
next
  case (Cons kv cfg)
  obtain k v where kv: "kv = (k, v)" by (cases kv)
  show ?case
    unfolding kv config_loop.simps Cons.IH process_entry_eq keys_dict_setitem by auto
qed

lemma config_loop_distinct:
  "distinct (map fst state) \<Longrightarrow> distinct (map fst (config_loop U fmul2 cfg state))"
proof (induction cfg arbitrary: state)
  case Nil
  then show ?case by simp
next
  case (Cons kv cfg)
  obtain k v where kv: "kv = (k, v)" by (cases kv)
  show ?case
    unfolding kv config_loop.simps process_entry_eq
    by (rule Cons.IH) (rule distinct_dict_setitem [OF Cons.prems])
qed

lemma config_loop_other_key:
  "k \<notin> set (map fst cfg) \<Longrightarrow> map_of (config_loop U fmul2 cfg state) k = map_of state k"
proof (induction cfg arbitrary: state)
  case Nil
  show ?case by simp
next
  case (Cons kv cfg)
  obtain k' v where kv: "kv = (k', v)" by (cases kv)
  from Cons.prems have "k \<noteq> k'" and rest: "k \<notin> set (map fst cfg)" by (auto simp: kv)
  then show ?case
    unfolding kv config_loop.simps Cons.IH [OF rest] process_entry_eq
    by (simp add: map_of_dict_setitem)
qed


lemma config_loop_eq:
  "distinct (map fst (state @ cfg)) \<Longrightarrow>
   config_loop U fmul2 cfg state = state @ stored_items U fmul2 cfg"
proof (induction cfg arbitrary: state)
  case Nil
  show ?case by (simp add: stored_items_def)
next
  case (Cons kv cfg)
  obtain k v where kv: "kv = (k, v)" by (cases kv)
  from Cons.prems have new: "k \<notin> set (map fst state)" and
    dist: "distinct (map fst ((state @ [(k, stored_value U fmul2 k v)]) @ cfg))"
    by (auto simp: kv)
  have "config_loop U fmul2 (kv # cfg) state
      = config_loop U fmul2 cfg (state @ [(k, stored_value U fmul2 k v)])"
    unfolding kv config_loop.simps process_entry_eq by (simp only: dict_setitem_new [OF new])
  also have "\<dots> = (state @ [(k, stored_value U fmul2 k v)]) @ stored_items U fmul2 cfg"
    by (rule Cons.IH [OF dist])
  finally show ?case by (simp add: kv stored_items_def)
qed

lemma process_config_fresh:
  "distinct (map fst cfg) \<Longrightarrow>
   internal_state (process_config U fmul2 (class_init cfg)) = stored_items U fmul2 cfg"
  by (simp add: process_config_def class_init_def config_loop_eq)

lemma keys_stored_items: "map fst (stored_items U fmul2 cfg) = map fst cfg"
  by (induction cfg) (auto simp: stored_items_def)

lemma process_config_lookup:
  assumes "distinct (map fst cfg)" and "(k, v) \<in> set cfg"
  shows "map_of (internal_state (process_config U fmul2 (class_init cfg))) k
         = Some (stored_value U fmul2 k v)"
proof -
  have "(k, stored_value U fmul2 k v) \<in> set (stored_items U fmul2 cfg)"
    using assms(2) by (force simp: stored_items_def)
  moreover have "distinct (map fst (stored_items U fmul2 cfg))"
    using assms(1) by (simp add: keys_stored_items)
  ultimately show ?thesis
    by (simp add: process_config_fresh [OF assms(1)])
qed


lemma single_entry:
  "internal_state (process_config U fmul2 (class_init [(key, val)])) = [(key, stored_value U fmul2 key val)]"
  by (simp add: process_config_def class_init_def process_entry_eq)


lemma dict_setitem_same:
  "distinct (map fst d) \<Longrightarrow> (k, v) \<in> set d \<Longrightarrow> dict_setitem d k v = d"
proof (induction d)
  case Nil
  then show ?case by simp
next
  case (Cons p d)
  obtain k' v' where p: "p = (k', v')" by (cases p)
  show ?case
  proof (cases "k' = k")
    case True
    with Cons.prems have "v' = v" by (force simp: p)
    with True show ?thesis by (simp add: p)
  next
    case False
    with Cons.prems have "distinct (map fst d)" and "(k, v) \<in> set d" by (auto simp: p)
    then have "dict_setitem d k v = d" by (rule Cons.IH)
    with False show ?thesis by (simp add: p)
  qed
qed

lemma config_loop_again:
  "distinct (map fst state) \<Longrightarrow> set (stored_items U fmul2 cfg) \<subseteq> set state \<Longrightarrow>
   config_loop U fmul2 cfg state = state"
proof (induction cfg)
  case Nil
  show ?case by simp
next
  case (Cons kv cfg)
  obtain k v where kv: "kv = (k, v)" by (cases kv)
  from Cons.prems(2) have here: "(k, stored_value U fmul2 k v) \<in> set state"
    and rest: "set (stored_items U fmul2 cfg) \<subseteq> set state"
    by (simp_all add: kv stored_items_def)
  have "process_entry U fmul2 k v state = state"
    unfolding process_entry_eq by (rule dict_setitem_same [OF Cons.prems(1) here])
  then show ?case
    using Cons.IH [OF Cons.prems(1) rest] by (simp add: kv)
qed


lemma config_loop_lookup:
  "distinct (map fst cfg) \<Longrightarrow> (k, v) \<in> set cfg \<Longrightarrow>
   map_of (config_loop U fmul2 cfg state) k = Some (stored_value U fmul2 k v)"
proof (induction cfg arbitrary: state)
  case Nil
  then show ?case by simp
next
  case (Cons kv cfg)
  obtain k' v' where kv: "kv = (k', v')" by (cases kv)
  from Cons.prems(1) have new: "k' \<notin> set (map fst cfg)" and dist: "distinct (map fst cfg)"
    by (simp_all add: kv)
  show ?case
  proof (cases "k' = k")
    case True
    with new have "(k, v) \<notin> set cfg" by force
    with Cons.prems(2) True have v: "v' = v" by (simp add: kv)
    have "map_of (config_loop U fmul2 (kv # cfg) state) k
            = map_of (process_entry U fmul2 k v state) k"
      using new True v by (simp add: kv config_loop_other_key)
    then show ?thesis
      by (simp add: process_entry_eq map_of_dict_setitem)
  next
    case False
    with Cons.prems(2) have "(k, v) \<in> set cfg" by (simp add: kv)
    then show ?thesis
      using Cons.IH [OF dist] by (simp add: kv)
  qed
qed


section \<open>No call meets an operand of another class\<close>

lemma and_then_Inr: "and_then (Inr v) rest = rest v"
  by (simp add: and_then_def)

lemma double_numeric_checked_eq:
  "double_numeric_checked fmul2 D xs = Inr (double_numeric fmul2 xs)"
proof (induction xs)
  case Nil
  show ?case by simp
next
  case (Cons x xs)
  then show ?case
    by (cases x) (simp_all add: mul2_def and_then_Inr)
qed

lemma short_list_loop_checked_eq:
  "short_list_loop_checked U D xs new_list = Inr (short_list_loop U xs new_list)"
proof (induction xs arbitrary: new_list)
  case Nil
  show ?case by simp
next
  case (Cons x xs)
  then show ?case
    by (cases x)
      (simp_all add: internal_helper_call_def another_internal_helper_call_def and_then_Inr)
qed

lemma nested_dict_loop_checked_eq:
  "nested_dict_loop_checked U D d nested_result = Inr (nested_dict_loop U d nested_result)"
proof (induction d arbitrary: nested_result)
  case Nil
  show ?case by simp
next
  case (Cons kv d)
  obtain k v where kv: "kv = (k, v)" by (cases kv)
  from Cons.IH show ?case
    unfolding kv
    by (cases v)
      (simp_all add: internal_helper_call_def another_internal_helper_call_def and_then_Inr)
qed

lemma process_entry_checked_eq:
  "process_entry_checked U fmul2 D key val state = Inr (process_entry U fmul2 key val state)"
  by (cases val)
    (simp_all add: process_entry_checked_def process_entry_def internal_helper_call_def
      another_internal_helper_call_def double_numeric_checked_eq short_list_loop_checked_eq
      nested_dict_loop_checked_eq and_then_Inr)

lemma config_loop_checked_eq:
  "config_loop_checked U fmul2 D cfg state = Inr (config_loop U fmul2 cfg state)"
proof (induction cfg arbitrary: state)
  case Nil
  show ?case by simp
next
  case (Cons kv cfg)
  obtain k v where kv: "kv = (k, v)" by (cases kv)
  from Cons.IH show ?case
    by (simp add: kv process_entry_checked_eq and_then_Inr)
qed

lemma process_config_checked_eq:
  "process_config_checked U fmul2 D self = Inr (process_config U fmul2 self)"
  by (simp add: process_config_checked_def process_config_def config_loop_checked_eq
      and_then_Inr)

text \<open>
  The exceptions are there: each of the three operations raises when it is called,
  without the test that guards it in the source, on an operand of another class.
\<close>

lemma unguarded_calls_raise:
  "internal_helper_call raising ''multiply'' (PStr s) = Inl TypeError"
  "another_internal_helper_call U raising (PInt i) = Inl AttributeError"
  "mul2 fmul2 raising (PDict d) = Inl TypeError"
  "and_then (mul2 fmul2 raising (PDict d)) rest = Inl TypeError"
  by (simp_all add: internal_helper_call_def another_internal_helper_call_def mul2_def
      raising_def and_then_def)


section \<open>Passes on the heap\<close>

lemma heap_process_config_length: "length (heap_process_config U fmul2 self h) = length h"
  by (simp add: heap_process_config_def)

lemma heap_process_config_frame:
  "a \<noteq> internal_state_ref self \<Longrightarrow> heap_process_config U fmul2 self h ! a = h ! a"
  by (simp add: heap_process_config_def)

lemma heap_process_config_frame_iter:
  "a \<noteq> internal_state_ref self \<Longrightarrow> ((heap_process_config U fmul2 self) ^^ n) h ! a = h ! a"
  by (induction n) (simp_all add: heap_process_config_frame)

lemma heap_process_config_object:
  assumes "config_ref self \<noteq> internal_state_ref self" and "internal_state_ref self < length h"
  shows "object_at (heap_process_config U fmul2 self h) self = process_config U fmul2 (object_at h self)"
  using assms by (simp add: object_at_def heap_process_config_def process_config_def)

lemma heap_init_object:
  assumes "config_addr < length h"
  shows "object_at (fst (heap_init h config_addr)) (snd (heap_init h config_addr))
         = class_init (h ! config_addr)"
  using assms by (simp add: object_at_def heap_init_def class_init_def nth_append)

lemma aliased_refs_change_config:
  "heap_process_config ascii_methods (\<lambda>x. x * 2) \<lparr>config_ref = 0, internal_state_ref = 0\<rparr>
     [[(''multiply'', PInt (IntV 12))]]
   = ([[(''multiply'', PInt (IntV 24))]] :: (real, int set) heap)"
  by (simp add: heap_process_config_def process_entry_def internal_helper_def)


section \<open>The text rule\<close>

text \<open>
  C2. For every string \<open>s\<close>, \<^verbatim>\<open>_another_internal_helper\<close> returns what the text rule
  says: \<open>s\<close> upper-cased if the lowercase form of \<open>s\<close> contains "error"; otherwise
  \<open>s\<close> with its first character capitalized and the rest lower-cased if the lowercase
  form contains "success"; otherwise \<open>s\<close> reversed. This holds for every string of
  code points and whatever the case mappings are. On an ASCII string the capitalized
  form is the upper case of the first character followed by the lower case of the
  rest. "this has an ERROR" gives "THIS HAS AN ERROR", "great success" gives
  "Great success" and "hello" gives "olleh".
\<close>

theorem another_internal_helper_text_rule:
  "another_internal_helper U s = transformText U s
   \<and> (ascii_agree U \<and> is_ascii s \<longrightarrow>
        capitalize U s = upper U (take 1 s) @ lower U (drop 1 s))
   \<and> (ascii_agree U \<longrightarrow>
        another_internal_helper U (str_of ''this has an ERROR'') = str_of ''THIS HAS AN ERROR''
        \<and> another_internal_helper U (str_of ''great success'') = str_of ''Great success''
        \<and> another_internal_helper U (str_of ''hello'') = str_of ''olleh'')"
proof -
  have general: "another_internal_helper U s = transformText U s"
    by (simp add: another_internal_helper_def transformText_def str_in_iff)
  have literal: "ascii_agree U \<and> is_ascii s \<longrightarrow>
        capitalize U s = upper U (take 1 s) @ lower U (drop 1 s)"
    using capitalize_ascii by blast
  have samples: "ascii_agree U \<longrightarrow>
        another_internal_helper U (str_of ''this has an ERROR'') = str_of ''THIS HAS AN ERROR''
        \<and> another_internal_helper U (str_of ''great success'') = str_of ''Great success''
        \<and> another_internal_helper U (str_of ''hello'') = str_of ''olleh''"
    using helper_samples by blast
  from general literal samples show ?thesis by blast
qed

theorem another_internal_helper_text_rule_witness:
  "ascii_agree ascii_methods \<and> is_ascii (str_of ''great success'')
   \<and> capitalize ascii_methods (str_of ''great success'')
       = upper ascii_methods (take 1 (str_of ''great success''))
         @ lower ascii_methods (drop 1 (str_of ''great success''))
   \<and> another_internal_helper ascii_methods (str_of ''this has an ERROR'')
       = str_of ''THIS HAS AN ERROR''
   \<and> another_internal_helper ascii_methods (str_of ''great success'') = str_of ''Great success''
   \<and> another_internal_helper ascii_methods (str_of ''hello'') = str_of ''olleh''"
proof -
  have a: "ascii_agree ascii_methods"
    by (rule ascii_agree_ascii_methods)
  have i: "is_ascii (str_of ''great success'')"
    by code_simp
  from another_internal_helper_text_rule [of ascii_methods "str_of ''great success''"] a i
  show ?thesis by blast
qed


section \<open>The numeric rule\<close>

text \<open>
  C3. For every integer \<open>v\<close> and every selector, \<^verbatim>\<open>_internal_helper\<close> returns the
  integer the numeric rule gives: with "multiply", \<open>v * 2\<close> if \<open>v > 10\<close> and \<open>v * 3\<close>
  otherwise; with "add", \<open>v + 200\<close> if \<open>v < 0\<close> and \<open>|v| > 100\<close>, \<open>v + 50\<close> if
  \<open>v < 0\<close> and \<open>|v| \<le> 100\<close>, and \<open>v + 10\<close> if \<open>v \<ge> 0\<close>; with any other selector,
  \<open>v\<close> itself. The six sample values of the specification are as stated.
\<close>

theorem internal_helper_numeric_rule:
  "internal_helper opSelector (IntV v) = IntV (transformNumber opSelector v)
   \<and> internal_helper ''multiply'' (IntV 12) = IntV 24
   \<and> internal_helper ''multiply'' (IntV 5) = IntV 15
   \<and> internal_helper ''add'' (IntV (- 150)) = IntV 50
   \<and> internal_helper ''add'' (IntV (- 20)) = IntV 30
   \<and> internal_helper ''add'' (IntV 5) = IntV 15
   \<and> internal_helper ''other'' (IntV 7) = IntV 7"
  by (simp add: internal_helper_def transformNumber_def)


section \<open>The key set of the result\<close>

text \<open>
  C1. For every configuration, the empty one included, a pass of \<^verbatim>\<open>process_config\<close>
  on a newly constructed object leaves in \<^verbatim>\<open>internal_state\<close> exactly the keys of the
  configuration: the two key sets are equal and no key occurs twice in the result.
\<close>

theorem process_config_key_set:
  "set (map fst (internal_state (process_config U fmul2 (class_init cfg)))) = set (map fst cfg)
   \<and> distinct (map fst (internal_state (process_config U fmul2 (class_init cfg))))
   \<and> internal_state (process_config U fmul2 (class_init [])) = []"
proof -
  have state: "internal_state (process_config U fmul2 (class_init c)) = config_loop U fmul2 c []" for c
    by (simp add: process_config_def class_init_def)
  have keys: "set (map fst (config_loop U fmul2 cfg [])) = set (map fst cfg)"
    unfolding config_loop_keys by simp
  have once: "distinct (map fst (config_loop U fmul2 cfg []))"
    by (rule config_loop_distinct) simp
  have empty: "config_loop U fmul2 [] [] = []"
    by simp
  show ?thesis
    unfolding state using keys once empty by blast
qed


section \<open>The list branch\<close>

text \<open>
  C4. For an entry whose value is a list, the value stored under its key is a new list.
  If the list has more than 5 elements, it holds every element that is an \<^verbatim>\<open>int\<close> or
  a \<^verbatim>\<open>float\<close> multiplied by 2, in order, the other elements being dropped. If it
  has at most 5 elements, it has the same length, each \<^verbatim>\<open>int\<close> element having gone
  through the numeric rule with selector "multiply", each string through the text rule,
  and every other element being kept as it is. The list 1, ..., 7 is mapped to
  2, 4, ..., 14 and the list 5, "hello", a float, -2, 10 to 15, "olleh", the same float,
  -6, 30.
\<close>

theorem sequence_entry_rule:
  assumes "distinct (map fst cfg)" and "(key, PList xs) \<in> set cfg"
  shows "map_of (internal_state (process_config U fmul2 (class_init cfg))) key
           = Some (PList (sequence_rule U fmul2 xs))
   \<and> (length xs \<le> 5 \<longrightarrow> length (sequence_rule U fmul2 xs) = length xs)
   \<and> internal_state (process_config U fmul2 (class_init
         [(key, PList [PInt (IntV 1), PInt (IntV 2), PInt (IntV 3), PInt (IntV 4),
                       PInt (IntV 5), PInt (IntV 6), PInt (IntV 7)])]))
       = [(key, PList [PInt (IntV 2), PInt (IntV 4), PInt (IntV 6), PInt (IntV 8),
                       PInt (IntV 10), PInt (IntV 12), PInt (IntV 14)])]
   \<and> (ascii_agree U \<longrightarrow>
        internal_state (process_config U fmul2 (class_init
          [(key, PList [PInt (IntV 5), PStr (str_of ''hello''), PFloat x, PInt (IntV (- 2)),
                        PInt (IntV 10)])]))
        = [(key, PList [PInt (IntV 15), PStr (str_of ''olleh''), PFloat x, PInt (IntV (- 6)),
                        PInt (IntV 30)])])"
proof -
  have stored: "stored_value U fmul2 k (PList ys) = PList (sequence_rule U fmul2 ys)" for k ys
    by (simp add: stored_value_def sequence_rule_def double_numeric_eq short_list_loop_eq)
  have general: "map_of (internal_state (process_config U fmul2 (class_init cfg))) key
           = Some (PList (sequence_rule U fmul2 xs))"
    using process_config_lookup [OF assms] by (simp only: stored)
  have len: "length xs \<le> 5 \<longrightarrow> length (sequence_rule U fmul2 xs) = length xs"
    by (simp add: sequence_rule_def)
  have long: "sequence_rule U fmul2
        [PInt (IntV 1), PInt (IntV 2), PInt (IntV 3), PInt (IntV 4), PInt (IntV 5),
         PInt (IntV 6), PInt (IntV 7)]
     = [PInt (IntV 2), PInt (IntV 4), PInt (IntV 6), PInt (IntV 8), PInt (IntV 10),
        PInt (IntV 12), PInt (IntV 14)]"
    by (simp add: sequence_rule_def)
  have short: "sequence_rule U fmul2
        [PInt (IntV 5), PStr (str_of ''hello''), PFloat x, PInt (IntV (- 2)), PInt (IntV 10)]
     = [PInt (IntV 15), PStr (str_of ''olleh''), PFloat x, PInt (IntV (- 6)), PInt (IntV 30)]"
    if "ascii_agree U"
    by (simp add: sequence_rule_def internal_helper_def helper_samples [OF that])
  show ?thesis
    unfolding single_entry stored long using general len short by blast
qed

theorem sequence_entry_rule_witness:
  "distinct (map fst complex_config)
   \<and> (''listData'', PList [PInt (IntV 5), PStr (str_of ''hello''), PFloat 3.14,
                           PInt (IntV (- 2)), PInt (IntV 10)]) \<in> set complex_config
   \<and> length [PInt (IntV 5), PStr (str_of ''hello''), PFloat 3.14 :: (real, int set) pyval,
              PInt (IntV (- 2)), PInt (IntV 10)] \<le> 5
   \<and> ascii_agree ascii_methods
   \<and> map_of (internal_state
         (process_config ascii_methods (\<lambda>x. x * 2) (class_init complex_config))) ''listData''
      = Some (PList [PInt (IntV 15), PStr (str_of ''olleh''), PFloat 3.14, PInt (IntV (- 6)),
                     PInt (IntV 30)])"
proof -
  have l: "length [PInt (IntV 5), PStr (str_of ''hello''), PFloat 3.14 :: (real, int set) pyval,
              PInt (IntV (- 2)), PInt (IntV 10)] \<le> 5"
    by simp
  have d: "distinct (map fst complex_config)"
    by (simp add: complex_config_def)
  have m: "(''listData'', PList [PInt (IntV 5), PStr (str_of ''hello''), PFloat 3.14,
                           PInt (IntV (- 2)), PInt (IntV 10)]) \<in> set complex_config"
    by (simp add: complex_config_def)
  have a: "ascii_agree ascii_methods"
    by (rule ascii_agree_ascii_methods)
  have "sequence_rule ascii_methods (\<lambda>x::real. x * 2)
          [PInt (IntV 5), PStr (str_of ''hello''), PFloat 3.14, PInt (IntV (- 2)), PInt (IntV 10)]
        = ([PInt (IntV 15), PStr (str_of ''olleh''), PFloat 3.14, PInt (IntV (- 6)),
            PInt (IntV 30)] :: (real, int set) pyval list)"
    by (simp add: sequence_rule_def internal_helper_def helper_samples [OF a])
  moreover have "map_of (internal_state
         (process_config ascii_methods (\<lambda>x. x * 2) (class_init complex_config))) ''listData''
      = Some (PList (sequence_rule ascii_methods (\<lambda>x. x * 2)
          [PInt (IntV 5), PStr (str_of ''hello''), PFloat 3.14, PInt (IntV (- 2)),
           PInt (IntV 10)]))"
    using sequence_entry_rule [OF d m] by (rule conjunct1)
  ultimately show ?thesis
    using d m l a by (simp only: simp_thms)
qed


section \<open>The dict branch\<close>

text \<open>
  C5. For an entry whose value is a \<^verbatim>\<open>dict\<close>, the value stored under its key is a new
  \<^verbatim>\<open>dict\<close> with the same keys in the same order, in which each \<^verbatim>\<open>int\<close> value has
  gone through the numeric rule with selector "add", each string through the text rule,
  and every other value is kept as it is. The inner dictionary innerInt: 5,
  innerText: "SUCCESS CASE", ignored: a float is mapped to innerInt: 15,
  innerText: "Success case", ignored: the same float.
\<close>

theorem mapping_entry_rule:
  assumes "distinct (map fst cfg)" and "(key, PDict d) \<in> set cfg" and "distinct (map fst d)"
  shows "map_of (internal_state (process_config U fmul2 (class_init cfg))) key
           = Some (PDict (mapping_rule U d))
   \<and> map fst (mapping_rule U d) = map fst d
   \<and> (ascii_agree U \<longrightarrow>
        internal_state (process_config U fmul2 (class_init
          [(key, PDict [(''innerInt'', PInt (IntV 5)),
                        (''innerText'', PStr (str_of ''SUCCESS CASE'')),
                        (''ignored'', PFloat x)])]))
        = [(key, PDict [(''innerInt'', PInt (IntV 15)),
                        (''innerText'', PStr (str_of ''Success case'')),
                        (''ignored'', PFloat x)])])"
proof -
  have stored: "stored_value U fmul2 k (PDict e) = PDict (mapping_rule U e)"
    if "distinct (map fst e)" for k e
    using that by (simp add: stored_value_def nested_dict_loop_eq)
  have general: "map_of (internal_state (process_config U fmul2 (class_init cfg))) key
           = Some (PDict (mapping_rule U d))"
    using process_config_lookup [OF assms(1,2)] by (simp only: stored [OF assms(3)])
  have keys: "map fst (mapping_rule U d) = map fst d"
    by (induction d) (auto simp: mapping_rule_def)
  have sample: "stored_value U fmul2 key
        (PDict [(''innerInt'', PInt (IntV 5)), (''innerText'', PStr (str_of ''SUCCESS CASE'')),
                (''ignored'', PFloat x)])
      = PDict [(''innerInt'', PInt (IntV 15)), (''innerText'', PStr (str_of ''Success case'')),
               (''ignored'', PFloat x)]"
    if "ascii_agree U"
    by (simp add: stored_value_def internal_helper_def helper_samples [OF that])
  show ?thesis
    unfolding single_entry using general keys sample by blast
qed

theorem mapping_entry_rule_witness:
  "distinct (map fst complex_config)
   \<and> (''nestedDict'', PDict [(''innerInt'', PInt (IntV 5)),
                             (''innerText'', PStr (str_of ''SUCCESS CASE'')),
                             (''ignored'', PFloat 3.1415)]) \<in> set complex_config
   \<and> distinct (map fst [(''innerInt'', PInt (IntV 5) :: (real, int set) pyval),
                (''innerText'', PStr (str_of ''SUCCESS CASE'')), (''ignored'', PFloat 3.1415)])
   \<and> ascii_agree ascii_methods
   \<and> map_of (internal_state
         (process_config ascii_methods (\<lambda>x. x * 2) (class_init complex_config))) ''nestedDict''
      = Some (PDict [(''innerInt'', PInt (IntV 15)),
                     (''innerText'', PStr (str_of ''Success case'')),
                     (''ignored'', PFloat 3.1415)])"
proof -
  have d: "distinct (map fst complex_config)"
    by (simp add: complex_config_def)
  have m: "(''nestedDict'', PDict [(''innerInt'', PInt (IntV 5)),
                             (''innerText'', PStr (str_of ''SUCCESS CASE'')),
                             (''ignored'', PFloat 3.1415)]) \<in> set complex_config"
    by (simp add: complex_config_def)
  have i: "distinct (map fst [(''innerInt'', PInt (IntV 5) :: (real, int set) pyval),
                (''innerText'', PStr (str_of ''SUCCESS CASE'')), (''ignored'', PFloat 3.1415)])"
    by simp
  have a: "ascii_agree ascii_methods"
    by (rule ascii_agree_ascii_methods)
  have "mapping_rule ascii_methods
          [(''innerInt'', PInt (IntV 5)), (''innerText'', PStr (str_of ''SUCCESS CASE'')),
           (''ignored'', PFloat 3.1415)]
      = ([(''innerInt'', PInt (IntV 15)), (''innerText'', PStr (str_of ''Success case'')),
          (''ignored'', PFloat 3.1415)] :: (real, int set) pydict)"
    by (simp add: mapping_rule_def internal_helper_def helper_samples [OF a])
  moreover have "map_of (internal_state
         (process_config ascii_methods (\<lambda>x. x * 2) (class_init complex_config))) ''nestedDict''
      = Some (PDict (mapping_rule ascii_methods
          [(''innerInt'', PInt (IntV 5)), (''innerText'', PStr (str_of ''SUCCESS CASE'')),
           (''ignored'', PFloat 3.1415)]))"
    using mapping_entry_rule [OF d m i] by (rule conjunct1)
  ultimately show ?thesis
    using d m i a by (simp only: simp_thms)
qed


section \<open>Integers at the top level\<close>

text \<open>
  C6. For a top-level entry whose value is an \<^verbatim>\<open>int\<close>, the selector given to the
  numeric rule is the entry's own key: the stored value is \<open>internal_helper key i\<close>, so
  that under a key other than "multiply" and "add" the value is stored as it is. An
  entry "multiply": 12 yields 24 and an entry "add": -20 yields 30.
\<close>

theorem top_level_integer_selector:
  assumes "distinct (map fst cfg)" and "(key, PInt i) \<in> set cfg"
  shows "map_of (internal_state (process_config U fmul2 (class_init cfg))) key
           = Some (PInt (internal_helper key i))
   \<and> (key \<noteq> ''multiply'' \<and> key \<noteq> ''add'' \<longrightarrow>
        map_of (internal_state (process_config U fmul2 (class_init cfg))) key = Some (PInt i))
   \<and> internal_state (process_config U fmul2 (class_init [(''multiply'', PInt (IntV 12))]))
       = [(''multiply'', PInt (IntV 24))]
   \<and> internal_state (process_config U fmul2 (class_init [(''add'', PInt (IntV (- 20)))]))
       = [(''add'', PInt (IntV 30))]"
proof -
  have general: "map_of (internal_state (process_config U fmul2 (class_init cfg))) key
           = Some (PInt (internal_helper key i))"
    using process_config_lookup [OF assms] by (simp add: stored_value_def)
  have other: "key \<noteq> ''multiply'' \<and> key \<noteq> ''add'' \<longrightarrow> internal_helper key i = i"
    by (simp add: internal_helper_def)
  have samples: "stored_value U fmul2 ''multiply'' (PInt (IntV 12)) = PInt (IntV 24)"
    "stored_value U fmul2 ''add'' (PInt (IntV (- 20))) = PInt (IntV 30)"
    by (simp_all add: stored_value_def internal_helper_def)
  show ?thesis
    unfolding single_entry samples general using other by simp
qed

theorem top_level_integer_selector_witness:
  "distinct (map fst complex_config)
   \<and> (''multiply'', PInt (IntV 12)) \<in> set complex_config
   \<and> map_of (internal_state (process_config ascii_methods (\<lambda>x. x * 2) (class_init complex_config)))
        ''multiply'' = Some (PInt (IntV 24))
   \<and> distinct (map fst [(''retries'', PInt (IntV 7) :: (real, int set) pyval)])
   \<and> ''retries'' \<noteq> ''multiply'' \<and> ''retries'' \<noteq> ''add''
   \<and> map_of (internal_state (process_config ascii_methods (\<lambda>x. x * 2)
         (class_init [(''retries'', PInt (IntV 7) :: (real, int set) pyval)])))
        ''retries'' = Some (PInt (IntV 7))"
proof -
  have d: "distinct (map fst complex_config)"
    by (simp add: complex_config_def)
  have m: "(''multiply'', PInt (IntV 12)) \<in> set complex_config"
    by (simp add: complex_config_def)
  have "internal_helper ''multiply'' (IntV 12) = IntV 24"
    by (simp add: internal_helper_def)
  moreover have "map_of (internal_state (process_config ascii_methods (\<lambda>x. x * 2) (class_init complex_config)))
        ''multiply'' = Some (PInt (internal_helper ''multiply'' (IntV 12)))"
    using top_level_integer_selector [OF d m] by (rule conjunct1)
  ultimately have first: "map_of (internal_state (process_config ascii_methods (\<lambda>x. x * 2)
        (class_init complex_config))) ''multiply'' = Some (PInt (IntV 24))"
    by (simp only:)
  have d': "distinct (map fst [(''retries'', PInt (IntV 7) :: (real, int set) pyval)])"
    by simp
  have m': "(''retries'', PInt (IntV 7))
             \<in> set [(''retries'', PInt (IntV 7) :: (real, int set) pyval)]"
    by simp
  have k: "''retries'' \<noteq> ''multiply'' \<and> ''retries'' \<noteq> ''add''"
    by simp
  have second: "map_of (internal_state (process_config ascii_methods (\<lambda>x. x * 2)
         (class_init [(''retries'', PInt (IntV 7) :: (real, int set) pyval)])))
        ''retries'' = Some (PInt (IntV 7))"
    using top_level_integer_selector
      [OF d' m', where U = ascii_methods and ?fmul2.0 = "\<lambda>x. x * 2"] k
    by blast
  from d m first d' k second show ?thesis by blast
qed


section \<open>Repeated passes on one object\<close>

text \<open>
  C7, as amended. The accumulator \<^verbatim>\<open>internal_state\<close> is created empty when the object
  is constructed, and \<^verbatim>\<open>process_config\<close> does not empty it. A pass writes one entry
  per key of the current configuration into the accumulator as it stands: afterwards
  its key set is the union of its earlier key set and the key set of the
  configuration, the value under each key of the current configuration is the one
  derived from that configuration's entry, whatever was there before, and the entries
  under keys that the current configuration lacks are those of earlier passes. Hence
  the first pass on a new object yields exactly the entries derived from its
  configuration, and a second pass over the same configuration changes nothing.
\<close>

theorem process_config_accumulates:
  "internal_state (class_init cfg) = []
   \<and> set (map fst (internal_state (process_config U fmul2 self)))
       = set (map fst (internal_state self)) \<union> set (map fst (config self))
   \<and> (distinct (map fst (config self)) \<and> (k, v) \<in> set (config self) \<longrightarrow>
        map_of (internal_state (process_config U fmul2 self)) k
          = Some (stored_value U fmul2 k v))
   \<and> (k \<notin> set (map fst (config self)) \<longrightarrow>
        map_of (internal_state (process_config U fmul2 self)) k = map_of (internal_state self) k)
   \<and> (distinct (map fst cfg) \<longrightarrow>
        internal_state (process_config U fmul2 (class_init cfg)) = stored_items U fmul2 cfg
        \<and> process_config U fmul2 (process_config U fmul2 (class_init cfg))
            = process_config U fmul2 (class_init cfg))"
proof -
  have created: "internal_state (class_init cfg) = []"
    by (simp add: class_init_def)
  have state: "internal_state (process_config U fmul2 s)
                 = config_loop U fmul2 (config s) (internal_state s)"
    for s
    by (simp add: process_config_def)
  have keys: "set (map fst (internal_state (process_config U fmul2 self)))
       = set (map fst (internal_state self)) \<union> set (map fst (config self))"
    unfolding state by (rule config_loop_keys)
  have written: "distinct (map fst (config self)) \<and> (k, v) \<in> set (config self) \<longrightarrow>
        map_of (internal_state (process_config U fmul2 self)) k
          = Some (stored_value U fmul2 k v)"
    unfolding state using config_loop_lookup by blast
  have kept: "k \<notin> set (map fst (config self)) \<longrightarrow>
        map_of (internal_state (process_config U fmul2 self)) k = map_of (internal_state self) k"
    unfolding state using config_loop_other_key by blast
  have first: "internal_state (process_config U fmul2 (class_init cfg)) = stored_items U fmul2 cfg"
    and again: "process_config U fmul2 (process_config U fmul2 (class_init cfg))
            = process_config U fmul2 (class_init cfg)"
    if dist: "distinct (map fst cfg)"
  proof -
    show one: "internal_state (process_config U fmul2 (class_init cfg)) = stored_items U fmul2 cfg"
      by (rule process_config_fresh [OF dist])
    have "config_loop U fmul2 cfg (stored_items U fmul2 cfg) = stored_items U fmul2 cfg"
      by (rule config_loop_again) (simp_all add: keys_stored_items dist)
    then show "process_config U fmul2 (process_config U fmul2 (class_init cfg))
            = process_config U fmul2 (class_init cfg)"
      using one by (simp add: process_config_def class_init_def)
  qed
  from created keys written kept first again show ?thesis by blast
qed

theorem process_config_accumulates_witness:
  "distinct (map fst [(''multiply'', PInt (IntV 5) :: (real, int set) pyval)])
   \<and> (''multiply'', PInt (IntV 5))
        \<in> set [(''multiply'', PInt (IntV 5) :: (real, int set) pyval)]
   \<and> map_of (internal_state (process_config ascii_methods (\<lambda>x. x * 2) (class_init complex_config)))
        ''multiply'' = Some (PInt (IntV 24))
   \<and> map_of (internal_state (process_config ascii_methods (\<lambda>x. x * 2)
         ((process_config ascii_methods (\<lambda>x. x * 2) (class_init complex_config))
            \<lparr>config := [(''multiply'', PInt (IntV 5))]\<rparr>))) ''multiply''
       = Some (PInt (IntV 15))
   \<and> ''add'' \<notin> set (map fst [(''multiply'', PInt (IntV 5) :: (real, int set) pyval)])
   \<and> map_of (internal_state (process_config ascii_methods (\<lambda>x. x * 2)
         ((process_config ascii_methods (\<lambda>x. x * 2) (class_init complex_config))
            \<lparr>config := [(''multiply'', PInt (IntV 5))]\<rparr>))) ''add''
       = Some (PInt (IntV 30))
   \<and> distinct (map fst complex_config)
   \<and> process_config ascii_methods (\<lambda>x. x * 2)
         (process_config ascii_methods (\<lambda>x. x * 2) (class_init complex_config))
       = process_config ascii_methods (\<lambda>x. x * 2) (class_init complex_config)"
proof -
  let ?first = "process_config ascii_methods (\<lambda>x. x * 2) (class_init complex_config)"
  let ?second = "?first\<lparr>config := [(''multiply'', PInt (IntV 5))]\<rparr>"
  have d: "distinct (map fst complex_config)"
    by (simp add: complex_config_def)
  have d2: "distinct (map fst [(''multiply'', PInt (IntV 5) :: (real, int set) pyval)])"
    by simp
  have m2: "(''multiply'', PInt (IntV 5))
        \<in> set [(''multiply'', PInt (IntV 5) :: (real, int set) pyval)]"
    by simp
  have n: "''add'' \<notin> set (map fst [(''multiply'', PInt (IntV 5) :: (real, int set) pyval)])"
    by simp
  have before_multiply: "map_of (internal_state ?first) ''multiply'' = Some (PInt (IntV 24))"
    using process_config_lookup [OF d, of "''multiply''" "PInt (IntV 12)"]
    by (simp add: complex_config_def stored_value_def internal_helper_def)
  have before_add: "map_of (internal_state ?first) ''add'' = Some (PInt (IntV 30))"
    using process_config_lookup [OF d, of "''add''" "PInt (IntV (- 20))"]
    by (simp add: complex_config_def stored_value_def internal_helper_def)
  note second = process_config_accumulates
    [where self = ?second and U = ascii_methods and ?fmul2.0 = "\<lambda>x. x * 2"
       and cfg = complex_config]
  have written: "map_of (internal_state (process_config ascii_methods (\<lambda>x. x * 2) ?second))
        ''multiply'' = Some (PInt (IntV 15))"
    using second [where k = "''multiply''" and v = "PInt (IntV 5)"]
    by (simp add: stored_value_def internal_helper_def)
  have kept: "map_of (internal_state (process_config ascii_methods (\<lambda>x. x * 2) ?second))
        ''add'' = Some (PInt (IntV 30))"
    using second [where k = "''add''"] before_add by simp
  have again: "process_config ascii_methods (\<lambda>x. x * 2) ?first = ?first"
    using process_config_accumulates
      [where cfg = complex_config and U = ascii_methods and ?fmul2.0 = "\<lambda>x. x * 2"] d
    by blast
  from d2 m2 before_multiply written n kept d again show ?thesis by blast
qed

text \<open>
  C7 as stated fails: after a pass over the configuration a: 1, the assignment of the
  configuration b: 2 to \<^verbatim>\<open>self.config\<close> and a second pass, the accumulator still
  holds the entry for a, which is not a key of the second configuration.
\<close>

theorem process_config_leftover_counterexample:
  "internal_state (process_config ascii_methods (\<lambda>x. x * 2)
      ((process_config ascii_methods (\<lambda>x. x * 2) (class_init [(''a'', PInt (IntV 1))]))
         \<lparr>config := [(''b'', PInt (IntV 2))]\<rparr>))
     = ([(''a'', PInt (IntV 1)), (''b'', PInt (IntV 2))] :: (real, int set) pydict)
   \<and> set (map fst (internal_state (process_config ascii_methods (\<lambda>x. x * 2)
      ((process_config ascii_methods (\<lambda>x. x * 2) (class_init [(''a'', PInt (IntV 1))]))
         \<lparr>config := [(''b'', PInt (IntV 2) :: (real, int set) pyval)]\<rparr>))))
     \<noteq> set (map fst [(''b'', PInt (IntV 2) :: (real, int set) pyval)])"
  by (simp add: process_config_def class_init_def process_entry_def internal_helper_def)


section \<open>The order of the entries\<close>

text \<open>
  C8. For a configuration (a \<^verbatim>\<open>dict\<close>, so with distinct keys), a pass over any
  permutation of its items yields the same result as a mapping from keys to values.
\<close>

theorem process_config_order_independent:
  assumes "distinct (map fst cfg)" and "mset cfg' = mset cfg"
  shows "map_of (internal_state (process_config U fmul2 (class_init cfg')))
         = map_of (internal_state (process_config U fmul2 (class_init cfg)))"
proof -
  have "mset (map fst cfg') = mset (map fst cfg)"
    using assms(2) by simp
  then have dist': "distinct (map fst cfg')"
    using assms(1) by (metis mset_eq_imp_distinct_iff)
  have same: "set cfg' = set cfg"
    using assms(2) by (rule mset_eq_setD)
  have "map_of (stored_items U fmul2 cfg') = map_of (stored_items U fmul2 cfg)"
  proof (rule map_of_inject_set [THEN iffD2])
    show "distinct (map fst (stored_items U fmul2 cfg'))"
      using dist' by (simp only: keys_stored_items)
    show "distinct (map fst (stored_items U fmul2 cfg))"
      using assms(1) by (simp only: keys_stored_items)
    show "set (stored_items U fmul2 cfg') = set (stored_items U fmul2 cfg)"
      using same by (simp add: stored_items_def)
  qed
  then show ?thesis
    by (simp only: process_config_fresh [OF dist'] process_config_fresh [OF assms(1)])
qed

theorem process_config_order_independent_witness:
  "distinct (map fst complex_config)
   \<and> mset (rev complex_config) = mset complex_config
   \<and> rev complex_config \<noteq> complex_config
   \<and> map_of (internal_state (process_config ascii_methods (\<lambda>x. x * 2) (class_init (rev complex_config))))
       = map_of (internal_state (process_config ascii_methods (\<lambda>x. x * 2) (class_init complex_config)))"
proof -
  have d: "distinct (map fst complex_config)"
    by (simp add: complex_config_def)
  have p: "mset (rev complex_config) = mset complex_config"
    by simp
  have r: "rev complex_config \<noteq> complex_config"
    by (simp add: complex_config_def)
  from process_config_order_independent [OF d p] d p r show ?thesis
    by blast
qed


section \<open>Every shape is handled and nothing raises\<close>

text \<open>
  C9. \<^verbatim>\<open>process_config\<close> returns on every object and raises no exception, whatever
  the helper methods and \<^verbatim>\<open>elem * 2\<close> do on operands of a class they are not written
  for, raising included: the class patterns and the \<^verbatim>\<open>isinstance\<close> tests of the
  method let every call through only on an operand of its own class, and the object it
  returns is the one computed above. For every entry of a configuration a pass stores
  a value under the entry's key, by the arm of the entry's shape; a value that is
  neither a string, an \<^verbatim>\<open>int\<close>, a \<^verbatim>\<open>list\<close> nor a \<^verbatim>\<open>dict\<close> is stored unchanged
  by the catch-all arm.
\<close>

theorem process_config_total:
  assumes "distinct (map fst cfg)" and "(key, val) \<in> set cfg"
  shows "process_config_checked U fmul2 D self = Inr (process_config U fmul2 self)
   \<and> (\<forall>e. process_config_checked U fmul2 D self \<noteq> Inl e)
   \<and> map_of (internal_state (process_config U fmul2 (class_init cfg))) key
           = Some (stored_value U fmul2 key val)
   \<and> (\<not> recognized val \<longrightarrow>
        map_of (internal_state (process_config U fmul2 (class_init cfg))) key = Some val)"
proof -
  have returns: "process_config_checked U fmul2 D self = Inr (process_config U fmul2 self)"
    by (rule process_config_checked_eq)
  then have no_error: "\<forall>e. process_config_checked U fmul2 D self \<noteq> Inl e"
    by simp
  have general: "map_of (internal_state (process_config U fmul2 (class_init cfg))) key
           = Some (stored_value U fmul2 key val)"
    by (rule process_config_lookup [OF assms])
  have "\<not> recognized val \<longrightarrow> stored_value U fmul2 key val = val"
    by (cases val) (simp_all add: stored_value_def)
  with returns no_error general show ?thesis by simp
qed

theorem process_config_total_witness:
  "distinct (map fst complex_config)
   \<and> (''unhandledType'', POther {1, 2, 3}) \<in> set complex_config
   \<and> \<not> recognized (POther {1, 2, 3} :: (real, int set) pyval)
   \<and> process_config_checked ascii_methods (\<lambda>x. x * 2) raising (class_init complex_config)
       = Inr (process_config ascii_methods (\<lambda>x. x * 2) (class_init complex_config))
   \<and> map_of (internal_state (process_config ascii_methods (\<lambda>x. x * 2) (class_init complex_config)))
        ''unhandledType'' = Some (POther {1, 2, 3})"
proof -
  have d: "distinct (map fst complex_config)"
    by (simp add: complex_config_def)
  have m: "(''unhandledType'', POther {1, 2, 3}) \<in> set complex_config"
    by (simp add: complex_config_def)
  have u: "\<not> recognized (POther {1, 2, 3} :: (real, int set) pyval)"
    by simp
  from process_config_total
    [OF d m, where U = ascii_methods and ?fmul2.0 = "\<lambda>x. x * 2" and D = raising
       and self = "class_init complex_config"] d m u
  show ?thesis by blast
qed


section \<open>The configuration is not written to\<close>

text \<open>
  C10. A pass writes only to the \<^verbatim>\<open>dict\<close> that \<^verbatim>\<open>internal_state\<close> refers to, which
  \<^verbatim>\<open>__init__\<close> has allocated itself. So after construction on a configuration that
  lives in the heap and any number of passes, every \<^verbatim>\<open>dict\<close> that existed before the
  construction, the configuration among them, is what it was; nested lists and
  dictionaries are part of the value of the \<^verbatim>\<open>dict\<close> that holds them. By value: the
  \<^verbatim>\<open>config\<close> of the object after a pass is the one given to \<^verbatim>\<open>__init__\<close>.
\<close>

theorem process_config_keeps_config:
  assumes "config_addr < length h"
  shows "(\<forall>a < length h.
            ((heap_process_config U fmul2 (snd (heap_init h config_addr))) ^^ n)
               (fst (heap_init h config_addr)) ! a = h ! a)
   \<and> ((heap_process_config U fmul2 (snd (heap_init h config_addr))) ^^ n)
         (fst (heap_init h config_addr)) ! config_addr = h ! config_addr
   \<and> config (object_at
         (((heap_process_config U fmul2 (snd (heap_init h config_addr))) ^^ n)
            (fst (heap_init h config_addr)))
         (snd (heap_init h config_addr))) = h ! config_addr
   \<and> config (process_config U fmul2 (class_init (h ! config_addr))) = h ! config_addr"
proof -
  let ?self = "snd (heap_init h config_addr)"
  let ?h1 = "fst (heap_init h config_addr)"
  have old: "((heap_process_config U fmul2 ?self) ^^ n) ?h1 ! a = h ! a" if "a < length h" for a
  proof -
    from that have "a \<noteq> internal_state_ref ?self"
      by (simp add: heap_init_def)
    then have "((heap_process_config U fmul2 ?self) ^^ n) ?h1 ! a = ?h1 ! a"
      by (rule heap_process_config_frame_iter)
    also have "?h1 ! a = h ! a"
      using that by (simp add: heap_init_def nth_append)
    finally show ?thesis .
  qed
  have ref: "config_ref ?self = config_addr"
    by (simp add: heap_init_def)
  have held: "config (object_at (((heap_process_config U fmul2 ?self) ^^ n) ?h1) ?self)
                = h ! config_addr"
    using old [OF assms] by (simp add: object_at_def ref)
  have "config (process_config U fmul2 (class_init (h ! config_addr))) = h ! config_addr"
    by (simp add: process_config_def class_init_def)
  with old held assms show ?thesis by blast
qed

theorem process_config_keeps_config_witness:
  "(0::nat) < length [complex_config]
   \<and> heap_process_config ascii_methods (\<lambda>x. x * 2) (snd (heap_init [complex_config] 0))
         (fst (heap_init [complex_config] 0)) ! 0 = complex_config"
proof -
  have valid: "(0::nat) < length [complex_config]"
    by simp
  have "((heap_process_config ascii_methods (\<lambda>x. x * 2) (snd (heap_init [complex_config] 0))) ^^ 1)
          (fst (heap_init [complex_config] 0)) ! 0 = [complex_config] ! 0"
    using process_config_keeps_config
      [OF valid, where U = ascii_methods and ?fmul2.0 = "\<lambda>x. x * 2" and n = 1]
    by blast
  then show ?thesis by simp
qed

end
